theory Spec2Isabelle
  imports Complex_Main
begin

section \<open>Data model of bot.py\<close>

text \<open>
  A \<open>Song\<close> as far as bot.py touches it: the title and url of its source, and the
  mutable attribute \<open>source.volume\<close> that the player assigns before every play.
  Python floats are modelled as exact rationals.
\<close>

record song =
  title :: string
  url :: string
  source_volume :: rat

text \<open>
  The voice client (the audio sink). bot.py reads \<open>is_playing()\<close> and \<open>is_paused()\<close>
  and calls play, stop, pause, resume, move_to and disconnect; the model keeps the channel
  and one of three rendering states.
\<close>

datatype sink_status = SinkIdle | SinkRendering | SinkPaused

record voice_client =
  channel :: nat
  status :: sink_status

datatype error =
    AttributeError
  | OutOfRange
  | VoiceError string
  | ClientException
  | HTTPException
  | CommandError

datatype message =
    ErrorWhilePlaying
  | NowPlaying song
  | NothingBeingPlayed
  | VolumeMustBeBetween
  | VolumeSetTo int
  | NotPlayingAnyMusic
  | EmptyQueue
  | NotConnected
  | Enqueued song
  | ErrorOccurred error

datatype reaction = PlayPauseMark | StopMark | NextMark | CheckMark

datatype printed = PlayerTimedOut | Printed error

text \<open>
  Everything a session does to the outside world is appended to a trace: calls on the
  voice client, messages and reactions sent to the text channel, lines printed, and the
  creation of a task that will run \<open>stop\<close>.
\<close>

datatype effect =
    SinkPlay song
  | SinkStop
  | SinkPause
  | SinkResume
  | SinkDisconnect
  | SinkConnect nat
  | SinkMoveTo nat
  | Send message
  | React reaction
  | Print printed
  | CreateTaskStop

text \<open>
  Where the coroutine \<open>audio_player_task\<close> stands: created and not yet run (or about to
  run the head of the \<open>while\<close> loop), suspended in \<open>songs.get()\<close> under the 180 second
  timeout, suspended in \<open>next.wait()\<close>, or ended because an exception left the loop.
\<close>

datatype task_point = AtTop | AtGet | AtNext | Exited

text \<open>
  The attributes of \<open>VoiceState\<close> set in \<open>__init__\<close> (lines 36 to 49): \<open>current\<close>, \<open>voice\<close>,
  the event \<open>next\<close>, \<open>songs\<close>, \<open>_loop\<close>, \<open>_volume\<close>, \<open>skip_votes\<close> and the task
  \<open>audio_player\<close>, kept as the point where the task stands. Three more fields observe the
  run: the seconds spent so far in the present \<open>songs.get()\<close>, the number of \<open>stop\<close> tasks
  created and not yet run, and the trace of effects.
\<close>

record VoiceState =
  current :: "song option"
  voice :: "voice_client option"
  next_event :: bool
  songs :: "song list"
  loop :: bool
  volume :: rat
  skip_votes :: "nat set"
  audio_player :: task_point
  waited :: nat
  pending_stops :: nat
  effects :: "effect list"

text \<open>
  The calls of one loop iteration that leave the program: whether \<open>voice.play\<close>, the
  sending of the now-playing embed, and the sending of the error report raise.
\<close>

record outcome =
  play_fails :: bool
  embed_fails :: bool
  report_fails :: bool

type_synonym voice_states = "nat \<rightharpoonup> VoiceState"

datatype command =
    Join "nat option"
  | Leave
  | Volume int
  | Pause
  | Resume
  | Stop
  | Skip
  | Loop
  | Remove int
  | Play "nat option" song

datatype event =
    Run outcome
  | Tick outcome
  | RunStop
  | Finished "string option"
  | Cmd command

datatype registry_op = Get nat | Del nat

section \<open>The song queue\<close>

text \<open>
  Modelled from the spec: class SongQueue is defined in media.py, which is not among the
  sources. Section 4.1 of the specification gives its contract: enqueue appends to the
  end, dequeue takes the first Track, clear discards all pending Tracks, and removeAt
  removes the Track at a 0-based position and fails with OutOfRange outside [0, length).
\<close>

definition SongQueue_put :: "song \<Rightarrow> song list \<Rightarrow> song list" where
  "SongQueue_put t q = q @ [t]"

definition SongQueue_clear :: "song list \<Rightarrow> song list" where
  "SongQueue_clear q = []"

fun delete_at :: "nat \<Rightarrow> 'a list \<Rightarrow> 'a list" where
  "delete_at n [] = []"
| "delete_at 0 (x # xs) = xs"
| "delete_at (Suc n) (x # xs) = x # delete_at n xs"

definition SongQueue_remove :: "int \<Rightarrow> song list \<Rightarrow> error + song list" where
  "SongQueue_remove i q =
     (if 0 \<le> i \<and> i < int (length q) then Inr (delete_at (nat i) q) else Inl OutOfRange)"

section \<open>class VoiceState\<close>

definition VoiceState_init :: VoiceState where
  "VoiceState_init =
     \<lparr>current = None, voice = None, next_event = False, songs = [], loop = False,
      volume = 1 / 2, skip_votes = {}, audio_player = AtTop, waited = 0,
      pending_stops = 0, effects = []\<rparr>"

definition is_playing :: "VoiceState \<Rightarrow> bool" where
  "is_playing s = (voice s \<noteq> None \<and> current s \<noteq> None)"

definition set_loop :: "bool \<Rightarrow> VoiceState \<Rightarrow> VoiceState" where
  "set_loop value s = s\<lparr>loop := value\<rparr>"

definition set_volume :: "rat \<Rightarrow> VoiceState \<Rightarrow> VoiceState" where
  "set_volume value s = s\<lparr>volume := value\<rparr>"

definition emit :: "effect list \<Rightarrow> VoiceState \<Rightarrow> VoiceState" where
  "emit es s = s\<lparr>effects := effects s @ es\<rparr>"

definition set_status :: "sink_status \<Rightarrow> VoiceState \<Rightarrow> VoiceState" where
  "set_status st s = s\<lparr>voice := map_option (\<lambda>v. v\<lparr>status := st\<rparr>) (voice s)\<rparr>"

text \<open>
  The body of the \<open>try\<close> block after the dequeue (lines 92 to 96): assign the volume to the
  current song's source, start the sink, send the embed. The result is the exception
  that left the block, if any, and the state as it is at that moment.
\<close>

definition play_current :: "outcome \<Rightarrow> VoiceState \<Rightarrow> error option \<times> VoiceState" where
  "play_current x s =
     (case current s of
        None \<Rightarrow> (Some AttributeError, s)
      | Some c \<Rightarrow>
          let c' = c\<lparr>source_volume := volume s\<rparr>;
              s1 = s\<lparr>current := Some c'\<rparr>
          in (case voice s1 of
                None \<Rightarrow> (Some AttributeError, s1)
              | Some v \<Rightarrow>
                  if play_fails x then (Some ClientException, s1)
                  else
                    let s2 = emit [SinkPlay c'] (set_status SinkRendering s1)
                    in if embed_fails x then (Some HTTPException, s2)
                       else (None, emit [Send (NowPlaying c')] s2)))"

text \<open>
  The handler \<open>except Exception as e\<close> (lines 97 to 99): send the report, print the
  exception. Sending the report can raise in turn.
\<close>

definition report_fault :: "outcome \<Rightarrow> error \<Rightarrow> VoiceState \<Rightarrow> error + VoiceState" where
  "report_fault x e s =
     (if report_fails x then Inl HTTPException
      else Inr (emit [Send ErrorWhilePlaying, Print (Printed e)] s))"

text \<open>
  The rest of an iteration once a song is in \<open>current\<close>: the \<open>try\<close> block, its handler,
  and then \<open>await self.next.wait()\<close> (line 101), where the task suspends. An exception
  raised by the handler leaves the \<open>while\<close> loop, and the task ends.
\<close>

definition play_and_wait :: "outcome \<Rightarrow> VoiceState \<Rightarrow> VoiceState" where
  "play_and_wait x s =
     (case play_current x s of
        (None, s1) \<Rightarrow> s1\<lparr>audio_player := AtNext\<rparr>
      | (Some e, s1) \<Rightarrow>
          (case report_fault x e s1 of
             Inl e' \<Rightarrow> s1\<lparr>audio_player := Exited\<rparr>
           | Inr s2 \<Rightarrow> s2\<lparr>audio_player := AtNext\<rparr>))"

text \<open>
  One pass from the head of the \<open>while True\<close> loop (lines 76 to 101) up to the next
  suspension: clear the event, read the loop flag, dequeue when it is off (suspending in
  \<open>songs.get()\<close> when the queue is empty), then play.
\<close>

definition iteration :: "outcome \<Rightarrow> VoiceState \<Rightarrow> VoiceState" where
  "iteration x s =
     (let s1 = s\<lparr>next_event := False\<rparr>
      in if \<not> loop s1 then
           (case songs s1 of
              [] \<Rightarrow> s1\<lparr>audio_player := AtGet, waited := 0\<rparr>
            | t # q \<Rightarrow> play_and_wait x (s1\<lparr>current := Some t, songs := q\<rparr>))
         else play_and_wait x s1)"

text \<open>
  The event loop lets the task run: it continues from where it is suspended until it
  suspends again, and stays where it is when what it waits for has not happened.
\<close>

definition audio_player_task :: "outcome \<Rightarrow> VoiceState \<Rightarrow> VoiceState" where
  "audio_player_task x s =
     (case audio_player s of
        AtTop \<Rightarrow> iteration x s
      | AtGet \<Rightarrow>
          (case songs s of
             [] \<Rightarrow> s
           | t # q \<Rightarrow> play_and_wait x (s\<lparr>current := Some t, songs := q\<rparr>))
      | AtNext \<Rightarrow> if next_event s then iteration x s else s
      | Exited \<Rightarrow> s)"

text \<open>
  The handler of \<open>asyncio.TimeoutError\<close> (lines 87 to 90): create a task for \<open>stop\<close>, print,
  and \<open>continue\<close>, which starts the next pass of the loop.
\<close>

definition on_timeout :: "outcome \<Rightarrow> VoiceState \<Rightarrow> VoiceState" where
  "on_timeout x s =
     iteration x
       (emit [CreateTaskStop, Print PlayerTimedOut] (s\<lparr>pending_stops := Suc (pending_stops s)\<rparr>))"

definition idle_timeout :: nat where
  "idle_timeout = 180"

text \<open>One second passes; it counts only while the task is blocked in \<open>songs.get()\<close>.\<close>

definition tick :: "outcome \<Rightarrow> VoiceState \<Rightarrow> VoiceState" where
  "tick x s =
     (if audio_player s = AtGet \<and> songs s = [] then
        (if idle_timeout \<le> Suc (waited s) then on_timeout x s
         else s\<lparr>waited := Suc (waited s)\<rparr>)
      else s)"

primrec elapse :: "outcome \<Rightarrow> nat \<Rightarrow> VoiceState \<Rightarrow> VoiceState" where
  "elapse x 0 s = s"
| "elapse x (Suc n) s = elapse x n (tick x s)"

definition play_next_song :: "string option \<Rightarrow> VoiceState \<Rightarrow> error + VoiceState" where
  "play_next_song err s =
     (case err of
        Some e \<Rightarrow> Inl (VoiceError e)
      | None \<Rightarrow> Inr (s\<lparr>next_event := True\<rparr>))"

text \<open>
  The sink is done with a source (it ended, was stopped, or failed) and calls the
  \<open>after\<close> callback. An exception of the callback goes to the sink, which called it,
  and not into the player task.
\<close>

definition sink_finished :: "string option \<Rightarrow> VoiceState \<Rightarrow> VoiceState" where
  "sink_finished err s =
     (let s1 = set_status SinkIdle s
      in case play_next_song err s1 of Inl e \<Rightarrow> s1 | Inr s2 \<Rightarrow> s2)"

definition skip :: "VoiceState \<Rightarrow> VoiceState" where
  "skip s =
     (let s1 = s\<lparr>skip_votes := {}\<rparr>
      in if is_playing s1 then emit [SinkStop] (set_status SinkIdle s1) else s1)"

definition stop :: "VoiceState \<Rightarrow> VoiceState" where
  "stop s =
     (let s1 = s\<lparr>songs := SongQueue_clear (songs s)\<rparr>
      in case voice s1 of
           None \<Rightarrow> s1
         | Some v \<Rightarrow> (emit [SinkDisconnect] s1)\<lparr>voice := None\<rparr>)"

text \<open>A task created by the timeout handler gets to run.\<close>

definition run_stop :: "VoiceState \<Rightarrow> VoiceState" where
  "run_stop s =
     (if 0 < pending_stops s then stop (s\<lparr>pending_stops := pending_stops s - 1\<rparr>) else s)"

section \<open>class Music\<close>

definition get_voice_state :: "voice_states \<Rightarrow> nat \<Rightarrow> VoiceState \<times> voice_states" where
  "get_voice_state m g =
     (case m g of
        Some state \<Rightarrow> (state, m)
      | None \<Rightarrow> (VoiceState_init, m(g \<mapsto> VoiceState_init)))"

text \<open>
  \<open>ensure_voice_state\<close> (lines 555 to 563) is the hook that \<open>_join\<close> and \<open>_play\<close> register
  for themselves. Its arguments are the voice channel of the author, if any, and the voice
  client of the guild, which is the one a session of the guild holds.
\<close>

definition ensure_voice_state :: "nat option \<Rightarrow> voice_client option \<Rightarrow> error + nat" where
  "ensure_voice_state author vc =
     (case author of
        None \<Rightarrow> Inl CommandError
      | Some d \<Rightarrow>
          (case vc of
             None \<Rightarrow> Inr d
           | Some v \<Rightarrow> if channel v \<noteq> d then Inl CommandError else Inr d))"

definition join_channel :: "nat \<Rightarrow> VoiceState \<Rightarrow> VoiceState" where
  "join_channel d s =
     (case voice s of
        Some v \<Rightarrow> emit [SinkMoveTo d] (s\<lparr>voice := Some (v\<lparr>channel := d\<rparr>)\<rparr>)
      | None \<Rightarrow> emit [SinkConnect d] (s\<lparr>voice := Some \<lparr>channel = d, status = SinkIdle\<rparr>\<rparr>))"

definition Music_join :: "nat option \<Rightarrow> VoiceState \<Rightarrow> error + VoiceState" where
  "Music_join author s =
     (case ensure_voice_state author (voice s) of
        Inl e \<Rightarrow> Inl e
      | Inr d \<Rightarrow> Inr (join_channel d s))"

definition Music_volume :: "int \<Rightarrow> VoiceState \<Rightarrow> VoiceState" where
  "Music_volume v s =
     (if \<not> is_playing s then emit [Send NothingBeingPlayed] s
      else if 0 > v \<and> v > 100 then emit [Send VolumeMustBeBetween] s
      else emit [Send (VolumeSetTo v)] (set_volume (of_int v / 100) s))"

definition Music_pause :: "VoiceState \<Rightarrow> error + VoiceState" where
  "Music_pause s =
     (if \<not> is_playing s then
        (case voice s of
           None \<Rightarrow> Inl AttributeError
         | Some v \<Rightarrow>
             if status v = SinkRendering
             then Inr (emit [SinkPause, React PlayPauseMark] (set_status SinkPaused s))
             else Inr s)
      else Inr s)"

definition Music_resume :: "VoiceState \<Rightarrow> error + VoiceState" where
  "Music_resume s =
     (if \<not> is_playing s then
        (case voice s of
           None \<Rightarrow> Inl AttributeError
         | Some v \<Rightarrow>
             if status v = SinkPaused
             then Inr (emit [SinkResume, React PlayPauseMark] (set_status SinkRendering s))
             else Inr s)
      else Inr s)"

definition Music_stop :: "VoiceState \<Rightarrow> VoiceState" where
  "Music_stop s =
     (let s1 = s\<lparr>songs := SongQueue_clear (songs s)\<rparr>
      in if is_playing s1 then emit [SinkStop, React StopMark] (set_status SinkIdle s1)
         else s1)"

definition Music_skip :: "VoiceState \<Rightarrow> VoiceState" where
  "Music_skip s =
     (if \<not> is_playing s then emit [Send NotPlayingAnyMusic] s
      else skip (emit [React NextMark] s))"

definition Music_remove :: "int \<Rightarrow> VoiceState \<Rightarrow> error + VoiceState" where
  "Music_remove index s =
     (if length (songs s) = 0 then Inr (emit [Send EmptyQueue] s)
      else
        (case SongQueue_remove (index - 1) (songs s) of
           Inl e \<Rightarrow> Inl e
         | Inr q \<Rightarrow> Inr (emit [React CheckMark] (s\<lparr>songs := q\<rparr>))))"

definition Music_loop :: "VoiceState \<Rightarrow> VoiceState" where
  "Music_loop s =
     (if \<not> is_playing s then emit [Send NothingBeingPlayed] s
      else emit [React CheckMark] (set_loop (\<not> loop s) s))"

text \<open>
  \<open>_play\<close> (lines 313 to 336) once the source has been resolved: join when no voice
  client is attached, then enqueue.
\<close>

definition Music_play :: "nat option \<Rightarrow> song \<Rightarrow> VoiceState \<Rightarrow> error + VoiceState" where
  "Music_play author t s =
     (case ensure_voice_state author (voice s) of
        Inl e \<Rightarrow> Inl e
      | Inr d \<Rightarrow>
          let s1 = (if voice s = None then join_channel d s else s)
          in Inr (emit [Send (Enqueued t)] (s1\<lparr>songs := SongQueue_put t (songs s1)\<rparr>)))"

text \<open>The body of every command but \<open>leave\<close>, which also changes the registry.\<close>

fun command_body :: "command \<Rightarrow> VoiceState \<Rightarrow> error + VoiceState" where
  "command_body (Join d) s = Music_join d s"
| "command_body Leave s = Inr s"
| "command_body (Volume v) s = Inr (Music_volume v s)"
| "command_body Pause s = Music_pause s"
| "command_body Resume s = Music_resume s"
| "command_body Stop s = Inr (Music_stop s)"
| "command_body Skip s = Inr (Music_skip s)"
| "command_body Loop s = Inr (Music_loop s)"
| "command_body (Remove i) s = Music_remove i s"
| "command_body (Play a t) s = Music_play a t s"

text \<open>
  A command on one session: an exception of the command is reported by
  \<open>cog_command_error\<close>, and the session is as it was.
\<close>

definition run_command :: "command \<Rightarrow> VoiceState \<Rightarrow> VoiceState" where
  "run_command c s =
     (case command_body c s of
        Inl e \<Rightarrow> emit [Send (ErrorOccurred e)] s
      | Inr s1 \<Rightarrow> s1)"

text \<open>
  The hook of the command itself runs first, before \<open>cog_before_invoke\<close>: for \<open>_join\<close> and
  \<open>_play\<close> it is \<open>ensure_voice_state\<close>, the other commands have none. The result is the
  exception it raises, if any.
\<close>

definition own_before_invoke :: "command \<Rightarrow> voice_client option \<Rightarrow> error option" where
  "own_before_invoke c vc =
     (case c of
        Join a \<Rightarrow> (case ensure_voice_state a vc of Inl e \<Rightarrow> Some e | Inr d \<Rightarrow> None)
      | Play a t \<Rightarrow> (case ensure_voice_state a vc of Inl e \<Rightarrow> Some e | Inr d \<Rightarrow> None)
      | _ \<Rightarrow> None)"

text \<open>
  A command arriving for guild \<open>g\<close>. When its own hook raises, the command is refused
  before any session is looked up: no session is created, and the error is reported (the
  report is recorded in the trace of the guild's session when there is one). Otherwise
  \<open>cog_before_invoke\<close> fetches (or creates) the session, then the command runs. \<open>_leave\<close>
  (lines 167 to 175) tears the session down and deletes it from the registry when a voice
  client is attached.
\<close>

definition invoke :: "nat \<Rightarrow> command \<Rightarrow> voice_states \<Rightarrow> voice_states" where
  "invoke g c m =
     (case own_before_invoke c (Option.bind (m g) voice) of
        Some e \<Rightarrow>
          (case m g of
             None \<Rightarrow> m
           | Some st \<Rightarrow> m(g \<mapsto> emit [Send (ErrorOccurred e)] st))
      | None \<Rightarrow>
          (case get_voice_state m g of
             (st, m1) \<Rightarrow>
               (case c of
                  Leave \<Rightarrow>
                    (case voice st of
                       None \<Rightarrow> m1(g \<mapsto> emit [Send NotConnected] st)
                     | Some v \<Rightarrow> m1(g := None))
                | _ \<Rightarrow> m1(g \<mapsto> run_command c st))))"

section \<open>Events\<close>

fun session_step :: "event \<Rightarrow> VoiceState \<Rightarrow> VoiceState" where
  "session_step (Run x) s = audio_player_task x s"
| "session_step (Tick x) s = tick x s"
| "session_step RunStop s = run_stop s"
| "session_step (Finished err) s = sink_finished err s"
| "session_step (Cmd c) s = run_command c s"


definition run_events :: "event list \<Rightarrow> VoiceState \<Rightarrow> VoiceState" where
  "run_events evs s = fold session_step evs s"

text \<open>An event for the session of guild \<open>g\<close>, on the registry.\<close>

definition system_step :: "nat \<Rightarrow> event \<Rightarrow> voice_states \<Rightarrow> voice_states" where
  "system_step g ev m =
     (case ev of
        Cmd c \<Rightarrow> invoke g c m
      | _ \<Rightarrow> (case m g of None \<Rightarrow> m | Some st \<Rightarrow> m(g \<mapsto> session_step ev st)))"

text \<open>
  One idle period: 180 seconds go by while the task waits, and then the \<open>stop\<close> task
  that the timeout handler created gets to run.
\<close>

definition idle_period :: "outcome \<Rightarrow> VoiceState \<Rightarrow> VoiceState" where
  "idle_period x s = run_stop (elapse x idle_timeout s)"

text \<open>The registry for \<open>n\<close> seconds without any other event for guild \<open>g\<close>.\<close>

definition elapse_in :: "nat \<Rightarrow> outcome \<Rightarrow> nat \<Rightarrow> voice_states \<Rightarrow> voice_states" where
  "elapse_in g x n m = (case m g of None \<Rightarrow> m | Some st \<Rightarrow> m(g \<mapsto> elapse x n st))"

fun registry_step :: "registry_op \<Rightarrow> voice_states \<Rightarrow> voice_states" where
  "registry_step (Get g) m = snd (get_voice_state m g)"
| "registry_step (Del g) m = invoke g Leave m"


section \<open>Concrete sessions\<close>

definition track_a :: song where
  "track_a = \<lparr>title = ''a'', url = ''u/a'', source_volume = 1\<rparr>"

definition track_b :: song where
  "track_b = \<lparr>title = ''b'', url = ''u/b'', source_volume = 1\<rparr>"

definition all_fine :: outcome where
  "all_fine = \<lparr>play_fails = False, embed_fails = False, report_fails = False\<rparr>"

text \<open>
  A fresh session whose task has started, then \<open>!play\<close> of one track from voice channel 0,
  and the task picking it up: the track is being rendered.
\<close>

definition playing0 :: VoiceState where
  "playing0 =
     run_events [Run all_fine, Cmd (Play (Some 0) track_a), Run all_fine] VoiceState_init"

text \<open>The track ends and the task goes back to waiting on the empty queue.\<close>

definition idle0 :: VoiceState where
  "idle0 = run_events [Finished None, Run all_fine] playing0"

text \<open>The sink paused under a session that is playing.\<close>

definition paused0 :: VoiceState where
  "paused0 = set_status SinkPaused playing0"


section \<open>Facts about the concrete sessions\<close>

lemmas run_defs =
  run_events_def audio_player_task_def iteration_def play_and_wait_def play_current_def
  report_fault_def emit_def set_status_def run_command_def Music_play_def
  ensure_voice_state_def join_channel_def SongQueue_put_def VoiceState_init_def all_fine_def
  sink_finished_def play_next_song_def Let_def track_a_def

lemma playing0_eq:
  "playing0 =
     \<lparr>current = Some (track_a\<lparr>source_volume := 1 / 2\<rparr>),
      voice = Some \<lparr>channel = 0, status = SinkRendering\<rparr>,
      next_event = False, songs = [], loop = False, volume = 1 / 2, skip_votes = {},
      audio_player = AtNext, waited = 0, pending_stops = 0,
      effects =
        [SinkConnect 0, Send (Enqueued track_a),
         SinkPlay (track_a\<lparr>source_volume := 1 / 2\<rparr>),
         Send (NowPlaying (track_a\<lparr>source_volume := 1 / 2\<rparr>))]\<rparr>"
  by (simp add: playing0_def run_defs)

lemma idle0_eq:
  "idle0 =
     \<lparr>current = Some (track_a\<lparr>source_volume := 1 / 2\<rparr>),
      voice = Some \<lparr>channel = 0, status = SinkIdle\<rparr>,
      next_event = False, songs = [], loop = False, volume = 1 / 2, skip_votes = {},
      audio_player = AtGet, waited = 0, pending_stops = 0,
      effects =
        [SinkConnect 0, Send (Enqueued track_a),
         SinkPlay (track_a\<lparr>source_volume := 1 / 2\<rparr>),
         Send (NowPlaying (track_a\<lparr>source_volume := 1 / 2\<rparr>))]\<rparr>"
  by (simp add: idle0_def playing0_eq run_defs)

lemma playing0_is_playing: "is_playing playing0"
  by (simp add: playing0_eq is_playing_def)

section \<open>The volume command\<close>

text \<open>
  The guard of \<open>_volume\<close> is the chained comparison \<open>0 > volume > 100\<close>, which no integer
  satisfies: whenever the session is playing, every value is stored.
\<close>

lemma Music_volume_never_rejects:
  "is_playing s \<Longrightarrow>
     Music_volume v s = emit [Send (VolumeSetTo v)] (set_volume (of_int v / 100) s)"
  by (auto simp: Music_volume_def)

text \<open>
  C3. The claim: \<open>setVolume(v)\<close> fails with InvalidRange and stores nothing when \<open>v\<close> is
  outside [0, 100]. Evaluated on a playing session, \<open>_volume\<close> stores 150 / 100 and
  -1 / 100 and answers with the confirmation message in both cases.
\<close>

theorem Music_volume_accepts_out_of_range:
  "is_playing playing0 \<and>
   volume (Music_volume 150 playing0) = 3 / 2 \<and>
   effects (Music_volume 150 playing0) = effects playing0 @ [Send (VolumeSetTo 150)] \<and>
   volume (Music_volume (- 1) playing0) = - 1 / 100 \<and>
   effects (Music_volume (- 1) playing0) = effects playing0 @ [Send (VolumeSetTo (- 1))]"
  by (simp add: Music_volume_never_rejects playing0_is_playing emit_def set_volume_def)

section \<open>Pause and resume\<close>

text \<open>
  C4. The claim: \<open>pause()\<close> acts when the session is playing and the sink is rendering,
  \<open>resume()\<close> when the session is playing and the sink is paused. The conditions of
  \<open>_pause\<close> and \<open>_resume\<close> start with \<open>not is_playing\<close>: on a playing session whose sink is
  rendering \<open>_pause\<close> changes nothing, on a playing session whose sink is paused \<open>_resume\<close>
  changes nothing, and on a session without voice client \<open>_pause\<close> raises.
\<close>

theorem Music_pause_skips_playing_session:
  "is_playing playing0 \<and> map_option status (voice playing0) = Some SinkRendering \<and>
   Music_pause playing0 = Inr playing0 \<and>
   is_playing paused0 \<and> map_option status (voice paused0) = Some SinkPaused \<and>
   Music_resume paused0 = Inr paused0 \<and>
   Music_pause VoiceState_init = Inl AttributeError"
  by (simp add: Music_pause_def Music_resume_def paused0_def playing0_eq is_playing_def
      set_status_def VoiceState_init_def)

section \<open>The stop command\<close>

text \<open>
  C5. For every session state, \<open>_stop\<close> empties the queue, calls \<open>stop\<close> on the sink exactly
  when the session is playing, keeps the voice client attached and on its channel (no
  disconnect), and leaves volume, loop flag, current track and the other fields as they
  are.
\<close>

theorem Music_stop_frame:
  "songs (Music_stop s) = [] \<and>
   effects (Music_stop s) = effects s @ (if is_playing s then [SinkStop, React StopMark] else []) \<and>
   voice (Music_stop s) =
     (if is_playing s then map_option (\<lambda>v. v\<lparr>status := SinkIdle\<rparr>) (voice s) else voice s) \<and>
   (voice (Music_stop s) = None) = (voice s = None) \<and>
   map_option channel (voice (Music_stop s)) = map_option channel (voice s) \<and>
   volume (Music_stop s) = volume s \<and>
   loop (Music_stop s) = loop s \<and>
   current (Music_stop s) = current s \<and>
   skip_votes (Music_stop s) = skip_votes s \<and>
   next_event (Music_stop s) = next_event s \<and>
   audio_player (Music_stop s) = audio_player s \<and>
   pending_stops (Music_stop s) = pending_stops s"
  by (cases "voice s")
    (simp_all add: Music_stop_def SongQueue_clear_def is_playing_def emit_def set_status_def
      Let_def)

theorem Music_stop_frame_witness:
  "songs (Music_stop playing0) = [] \<and>
   effects (Music_stop playing0) = effects playing0 @ [SinkStop, React StopMark] \<and>
   voice (Music_stop playing0) = Some \<lparr>channel = 0, status = SinkIdle\<rparr> \<and>
   songs (Music_stop VoiceState_init) = [] \<and>
   effects (Music_stop VoiceState_init) = []"
  using Music_stop_frame [of playing0] Music_stop_frame [of VoiceState_init] playing0_is_playing
  by (simp add: playing0_eq is_playing_def VoiceState_init_def)

section \<open>Skip\<close>

text \<open>
  C7. \<open>VoiceState.skip\<close> always empties the skip-vote set, and calls \<open>stop\<close> on the sink
  exactly when the session is playing. The command \<open>_skip\<close> calls it (after its reaction)
  when the session is playing; otherwise it makes no call on the sink and answers that
  no music is playing, and the session is otherwise as it was.
\<close>

theorem skip_clears_votes:
  "skip_votes (skip s) = {} \<and>
   effects (skip s) = effects s @ (if is_playing s then [SinkStop] else []) \<and>
   voice (skip s) =
     (if is_playing s then map_option (\<lambda>v. v\<lparr>status := SinkIdle\<rparr>) (voice s) else voice s) \<and>
   Music_skip s =
     (if is_playing s then skip (emit [React NextMark] s) else emit [Send NotPlayingAnyMusic] s) \<and>
   effects (Music_skip s) =
     effects s @ (if is_playing s then [React NextMark, SinkStop] else [Send NotPlayingAnyMusic]) \<and>
   voice (Music_skip s) =
     (if is_playing s then map_option (\<lambda>v. v\<lparr>status := SinkIdle\<rparr>) (voice s) else voice s) \<and>
   skip_votes (Music_skip s) = (if is_playing s then {} else skip_votes s)"
  by (simp add: skip_def Music_skip_def is_playing_def emit_def set_status_def Let_def)

theorem skip_clears_votes_witness:
  "skip_votes (skip (playing0\<lparr>skip_votes := {3}\<rparr>)) = {} \<and>
   effects (skip playing0) = effects playing0 @ [SinkStop] \<and>
   voice (skip playing0) = Some \<lparr>channel = 0, status = SinkIdle\<rparr> \<and>
   effects (skip VoiceState_init) = []"
  using skip_clears_votes [of "playing0\<lparr>skip_votes := {3}\<rparr>", THEN conjunct1]
    skip_clears_votes [of playing0, THEN conjunct2, THEN conjunct1]
    skip_clears_votes [of playing0, THEN conjunct2, THEN conjunct2, THEN conjunct1]
    skip_clears_votes [of VoiceState_init, THEN conjunct2, THEN conjunct1]
  by (simp add: playing0_eq is_playing_def VoiceState_init_def)

section \<open>Removal by index\<close>

lemma delete_at_take_drop: "delete_at n xs = take n xs @ drop (Suc n) xs"
  by (induction n xs rule: delete_at.induct) simp_all

lemma length_delete_at: "n < length xs \<Longrightarrow> length (delete_at n xs) = length xs - 1"
  by (simp add: delete_at_take_drop)

lemma nth_delete_at:
  "j < length xs - 1 \<Longrightarrow> delete_at n xs ! j = (if j < n then xs ! j else xs ! Suc j)"
  by (induction n xs arbitrary: j rule: delete_at.induct) (auto simp: nth_Cons split: nat.splits)

text \<open>
  C8. For a position \<open>i\<close> outside [0, length) the queue's removal fails with OutOfRange, and
  the command \<open>_remove\<close>, which is given \<open>i + 1\<close> and passes \<open>i\<close> on, raises it on a queue that
  is not empty and leaves the queue as it was. For \<open>i\<close> inside the range exactly the track
  at position \<open>i\<close> goes: the tracks before it keep their positions, the tracks after it
  move up by one.
\<close>

theorem SongQueue_remove_bounds:
  "(i < 0 \<or> int (length q) \<le> i \<longrightarrow>
      SongQueue_remove i q = Inl OutOfRange \<and>
      (songs s = q \<and> q \<noteq> [] \<longrightarrow>
         Music_remove (i + 1) s = Inl OutOfRange \<and>
         songs (run_command (Remove (i + 1)) s) = q)) \<and>
   (0 \<le> i \<and> i < int (length q) \<longrightarrow>
      (\<exists>q'. SongQueue_remove i q = Inr q' \<and>
            q' = take (nat i) q @ drop (Suc (nat i)) q \<and>
            length q' = length q - 1 \<and>
            (\<forall>j < length q'. q' ! j = (if j < nat i then q ! j else q ! Suc j)) \<and>
            (songs s = q \<longrightarrow> songs (run_command (Remove (i + 1)) s) = q')))"
proof (intro conjI impI)
  assume out: "i < 0 \<or> int (length q) \<le> i"
  then show r: "SongQueue_remove i q = Inl OutOfRange"
    by (auto simp: SongQueue_remove_def)
  assume "songs s = q \<and> q \<noteq> []"
  with r show "Music_remove (i + 1) s = Inl OutOfRange"
    by (simp add: Music_remove_def)
  then show "songs (run_command (Remove (i + 1)) s) = q"
    using \<open>songs s = q \<and> q \<noteq> []\<close> by (simp add: run_command_def emit_def)
next
  assume inr: "0 \<le> i \<and> i < int (length q)"
  then have n: "nat i < length q" by linarith
  have r: "SongQueue_remove i q = Inr (delete_at (nat i) q)"
    using inr by (simp add: SongQueue_remove_def)
  have l: "length (delete_at (nat i) q) = length q - 1"
    using n by (rule length_delete_at)
  have ne: "q \<noteq> []" using n by auto
  show "\<exists>q'. SongQueue_remove i q = Inr q' \<and>
            q' = take (nat i) q @ drop (Suc (nat i)) q \<and>
            length q' = length q - 1 \<and>
            (\<forall>j < length q'. q' ! j = (if j < nat i then q ! j else q ! Suc j)) \<and>
            (songs s = q \<longrightarrow> songs (run_command (Remove (i + 1)) s) = q')"
  proof (intro exI conjI allI impI)
    show "SongQueue_remove i q = Inr (delete_at (nat i) q)" by (rule r)
    show "delete_at (nat i) q = take (nat i) q @ drop (Suc (nat i)) q"
      by (rule delete_at_take_drop)
    show "length (delete_at (nat i) q) = length q - 1" by (rule l)
    show "delete_at (nat i) q ! j = (if j < nat i then q ! j else q ! Suc j)"
      if "j < length (delete_at (nat i) q)" for j
      using that l nth_delete_at [of j q "nat i"] by simp
    show "songs (run_command (Remove (i + 1)) s) = delete_at (nat i) q" if "songs s = q"
      using that r ne by (simp add: run_command_def Music_remove_def emit_def)
  qed
qed

theorem SongQueue_remove_bounds_witness:
  "SongQueue_remove 2 [track_a, track_b] = Inl OutOfRange \<and>
   SongQueue_remove (- 1) [track_a, track_b] = Inl OutOfRange \<and>
   SongQueue_remove 1 [track_a, track_b] = Inr [track_a] \<and>
   SongQueue_remove 0 [track_a, track_b] = Inr [track_b] \<and>
   songs (run_command (Remove 3) (playing0\<lparr>songs := [track_a, track_b]\<rparr>)) =
     [track_a, track_b] \<and>
   songs (run_command (Remove 2) (playing0\<lparr>songs := [track_a, track_b]\<rparr>)) = [track_a]"
  using
    SongQueue_remove_bounds [of 2 "[track_a, track_b]" "playing0\<lparr>songs := [track_a, track_b]\<rparr>"]
    SongQueue_remove_bounds [of "- 1" "[track_a, track_b]" "playing0\<lparr>songs := [track_a, track_b]\<rparr>"]
    SongQueue_remove_bounds [of 1 "[track_a, track_b]" "playing0\<lparr>songs := [track_a, track_b]\<rparr>"]
    SongQueue_remove_bounds [of 0 "[track_a, track_b]" "playing0\<lparr>songs := [track_a, track_b]\<rparr>"]
  by simp

section \<open>The registry of sessions\<close>

text \<open>
  C9. In the registry reached by any sequence of lookups and leaves, \<open>get_voice_state\<close> for
  a guild returns the stored session and leaves the registry alone when there is one, and
  otherwise returns a new session, whose player task has been created and waits for songs
  once it runs, stored under that guild and under no other key. The registry is a
  dictionary: it holds at most one session per guild, and a second lookup returns the
  session of the first.
\<close>

theorem get_voice_state_one_per_room:
  "(case fold registry_step ops m0 g of
      Some st \<Rightarrow>
        get_voice_state (fold registry_step ops m0) g = (st, fold registry_step ops m0)
    | None \<Rightarrow>
        get_voice_state (fold registry_step ops m0) g =
          (VoiceState_init, (fold registry_step ops m0)(g \<mapsto> VoiceState_init))) \<and>
   audio_player VoiceState_init = AtTop \<and>
   audio_player (audio_player_task x VoiceState_init) = AtGet \<and>
   (case get_voice_state (fold registry_step ops m0) g of
      (st, m1) \<Rightarrow>
        m1 g = Some st \<and> get_voice_state m1 g = (st, m1) \<and>
        dom m1 = insert g (dom (fold registry_step ops m0)))"
  by (auto simp: get_voice_state_def VoiceState_init_def audio_player_task_def iteration_def
      split: option.splits)

theorem get_voice_state_one_per_room_witness:
  "fold registry_step [Get 1, Del 1, Get 2] Map.empty 1 =
     Some (emit [Send NotConnected] VoiceState_init) \<and>
   get_voice_state (fold registry_step [Get 1, Del 1, Get 2] Map.empty) 1 =
     (emit [Send NotConnected] VoiceState_init, fold registry_step [Get 1, Del 1, Get 2] Map.empty) \<and>
   fold registry_step [Get 1, Del 1, Get 2] Map.empty 3 = None \<and>
   get_voice_state (fold registry_step [Get 1, Del 1, Get 2] Map.empty) 3 =
     (VoiceState_init, (fold registry_step [Get 1, Del 1, Get 2] Map.empty)(3 \<mapsto> VoiceState_init))"
proof -
  have a: "fold registry_step [Get 1, Del 1, Get 2] Map.empty 1 =
     Some (emit [Send NotConnected] VoiceState_init)"
    "fold registry_step [Get 1, Del 1, Get 2] Map.empty 3 = None"
    by (simp_all add: get_voice_state_def invoke_def own_before_invoke_def VoiceState_init_def
        emit_def)
  show ?thesis
    using get_voice_state_one_per_room [of "[Get 1, Del 1, Get 2]" Map.empty 1]
      get_voice_state_one_per_room [of "[Get 1, Del 1, Get 2]" Map.empty 3] a
    by simp
qed

section \<open>The idle timeout\<close>

lemma elapse_add: "elapse x (a + b) s = elapse x b (elapse x a s)"
  by (induction a arbitrary: s) simp_all

lemma elapse_waiting:
  "audio_player s = AtGet \<Longrightarrow> songs s = [] \<Longrightarrow> waited s + n < idle_timeout \<Longrightarrow>
     elapse x n s = s\<lparr>waited := waited s + n\<rparr>"
proof (induction n arbitrary: s)
  case 0
  then show ?case by simp
next
  case (Suc n)
  have t: "tick x s = s\<lparr>waited := Suc (waited s)\<rparr>"
    using Suc.prems by (simp add: tick_def)
  have "elapse x n (s\<lparr>waited := Suc (waited s)\<rparr>) =
        (s\<lparr>waited := Suc (waited s)\<rparr>)\<lparr>waited := waited (s\<lparr>waited := Suc (waited s)\<rparr>) + n\<rparr>"
    using Suc.prems by (intro Suc.IH) simp_all
  with t show ?case by simp
qed

lemma timeout_fires:
  assumes "audio_player s = AtGet" "songs s = []" "\<not> loop s" "waited s = 0"
  shows "elapse x idle_timeout s =
           s\<lparr>next_event := False, pending_stops := Suc (pending_stops s),
             effects := effects s @ [CreateTaskStop, Print PlayerTimedOut]\<rparr>"
proof -
  have "elapse x (179 + 1) s = elapse x 1 (elapse x 179 s)"
    by (rule elapse_add)
  also have "elapse x 179 s = s\<lparr>waited := waited s + 179\<rparr>"
    using assms by (intro elapse_waiting) (simp_all add: idle_timeout_def)
  also have "elapse x 1 (s\<lparr>waited := waited s + 179\<rparr>) = tick x (s\<lparr>waited := 179\<rparr>)"
    using assms by simp
  also have "\<dots> = s\<lparr>next_event := False, pending_stops := Suc (pending_stops s),
             effects := effects s @ [CreateTaskStop, Print PlayerTimedOut]\<rparr>"
    using assms by (cases s) (simp add: tick_def idle_timeout_def on_timeout_def iteration_def emit_def)
  finally show ?thesis by (simp add: idle_timeout_def)
qed

lemma timeout_rounds:
  assumes "audio_player s = AtGet" "songs s = []" "\<not> loop s" "waited s = 0"
  shows "elapse x (k * idle_timeout) s =
           s\<lparr>next_event := (if k = 0 then next_event s else False),
             pending_stops := pending_stops s + k,
             effects := effects s @ concat (replicate k [CreateTaskStop, Print PlayerTimedOut])\<rparr>"
  using assms
proof (induction k arbitrary: s)
  case 0
  then show ?case by simp
next
  case (Suc k)
  let ?s1 = "s\<lparr>next_event := False, pending_stops := Suc (pending_stops s),
             effects := effects s @ [CreateTaskStop, Print PlayerTimedOut]\<rparr>"
  have "elapse x (Suc k * idle_timeout) s = elapse x (k * idle_timeout) (elapse x idle_timeout s)"
    using elapse_add [of x idle_timeout "k * idle_timeout" s] by simp
  also have "elapse x idle_timeout s = ?s1"
    using Suc.prems by (rule timeout_fires)
  also have "elapse x (k * idle_timeout) ?s1 =
     ?s1\<lparr>next_event := (if k = 0 then next_event ?s1 else False),
             pending_stops := pending_stops ?s1 + k,
             effects := effects ?s1 @ concat (replicate k [CreateTaskStop, Print PlayerTimedOut])\<rparr>"
    using Suc.prems by (intro Suc.IH) simp_all
  finally show ?case by simp
qed

lemma idle0_waits: "audio_player idle0 = AtGet" "songs idle0 = []" "\<not> loop idle0" "waited idle0 = 0"
  "pending_stops idle0 = 0"
  by (simp_all add: idle0_eq)

lemma stop_eq:
  "stop s =
     s\<lparr>songs := [], voice := None,
       effects := effects s @ (if voice s = None then [] else [SinkDisconnect])\<rparr>"
  by (cases s) (simp add: stop_def SongQueue_clear_def emit_def Let_def split: option.splits)

lemma idle_period_eq:
  assumes "audio_player s = AtGet" "songs s = []" "\<not> loop s" "waited s = 0"
  shows "idle_period x s =
           stop (s\<lparr>next_event := False,
                  effects := effects s @ [CreateTaskStop, Print PlayerTimedOut]\<rparr>)"
proof -
  have "elapse x idle_timeout s =
          s\<lparr>next_event := False, pending_stops := Suc (pending_stops s),
            effects := effects s @ [CreateTaskStop, Print PlayerTimedOut]\<rparr>"
    using assms by (rule timeout_fires)
  then show ?thesis
    by (cases s) (simp add: idle_period_def run_stop_def)
qed

lemma idle_period_step:
  assumes "audio_player s = AtGet" "songs s = []" "\<not> loop s" "waited s = 0"
  shows "audio_player (idle_period x s) = AtGet \<and> songs (idle_period x s) = [] \<and>
         \<not> loop (idle_period x s) \<and> waited (idle_period x s) = 0 \<and>
         pending_stops (idle_period x s) = pending_stops s \<and>
         voice (idle_period x s) = None \<and>
         count_list (effects (idle_period x s)) CreateTaskStop =
           Suc (count_list (effects s) CreateTaskStop)"
  using assms by (simp add: idle_period_eq [OF assms] stop_eq)

lemma idle_periods:
  assumes "audio_player s = AtGet" "songs s = []" "\<not> loop s" "waited s = 0"
  shows "audio_player ((idle_period x ^^ k) s) = AtGet \<and> songs ((idle_period x ^^ k) s) = [] \<and>
         \<not> loop ((idle_period x ^^ k) s) \<and> waited ((idle_period x ^^ k) s) = 0 \<and>
         pending_stops ((idle_period x ^^ k) s) = pending_stops s \<and>
         (0 < k \<longrightarrow> voice ((idle_period x ^^ k) s) = None) \<and>
         count_list (effects ((idle_period x ^^ k) s)) CreateTaskStop =
           count_list (effects s) CreateTaskStop + k"
proof (induction k)
  case 0
  show ?case using assms by simp
next
  case (Suc k)
  let ?r = "(idle_period x ^^ k) s"
  from Suc.IH have i: "audio_player ?r = AtGet" "songs ?r = []" "\<not> loop ?r" "waited ?r = 0"
    by simp_all
  from Suc.IH have c: "pending_stops ?r = pending_stops s"
    "count_list (effects ?r) CreateTaskStop = count_list (effects s) CreateTaskStop + k"
    by simp_all
  show ?case
    using idle_period_step [OF i, of x] c by simp
qed

text \<open>
  C1, as the code has it. A session whose task waits on the empty queue with the loop flag
  off, stored for guild \<open>g\<close>: for less than 180 seconds nothing happens; at 180 seconds
  the handler creates one task for \<open>stop\<close> and prints, and the loop goes on (\<open>continue\<close>):
  the task waits on the queue again, with a new 180 second bound. When the \<open>stop\<close> task
  has run, the registry still holds the session for \<open>g\<close>, torn down and waiting; so each
  further idle period creates one more \<open>stop\<close> task, \<open>k\<close> periods \<open>k\<close> of them (and as many
  by the clock alone, when no \<open>stop\<close> task gets to run in between). \<open>stop\<close>, on any
  session, empties the queue whatever it holds, calls \<open>disconnect\<close> on the voice client
  when one is attached, detaches it, and changes nothing else.
\<close>

theorem idle_timeout_keeps_session:
  "(m g = Some s \<and> audio_player s = AtGet \<and> songs s = [] \<and> \<not> loop s \<and> waited s = 0 \<longrightarrow>
     (\<forall>n < idle_timeout. elapse_in g x n m g = Some (s\<lparr>waited := n\<rparr>)) \<and>
     elapse_in g x idle_timeout m g =
       Some (s\<lparr>next_event := False, pending_stops := Suc (pending_stops s),
               effects := effects s @ [CreateTaskStop, Print PlayerTimedOut]\<rparr>) \<and>
     map_option audio_player (elapse_in g x (k * idle_timeout) m g) = Some AtGet \<and>
     map_option pending_stops (elapse_in g x (k * idle_timeout) m g) = Some (pending_stops s + k) \<and>
     system_step g RunStop (elapse_in g x idle_timeout m) g =
       Some (stop (s\<lparr>next_event := False,
                     effects := effects s @ [CreateTaskStop, Print PlayerTimedOut]\<rparr>)) \<and>
     audio_player ((idle_period x ^^ k) s) = AtGet \<and>
     songs ((idle_period x ^^ k) s) = [] \<and>
     \<not> loop ((idle_period x ^^ k) s) \<and>
     waited ((idle_period x ^^ k) s) = 0 \<and>
     pending_stops ((idle_period x ^^ k) s) = pending_stops s \<and>
     (0 < k \<longrightarrow> voice ((idle_period x ^^ k) s) = None) \<and>
     count_list (effects ((idle_period x ^^ k) s)) CreateTaskStop =
       count_list (effects s) CreateTaskStop + k) \<and>
   stop s' =
     s'\<lparr>songs := [], voice := None,
        effects := effects s' @ (if voice s' = None then [] else [SinkDisconnect])\<rparr> \<and>
   songs (stop s') = [] \<and> voice (stop s') = None \<and>
   effects (stop s') = effects s' @ (if voice s' = None then [] else [SinkDisconnect])"
proof (intro conjI impI)
  show "stop s' =
     s'\<lparr>songs := [], voice := None,
        effects := effects s' @ (if voice s' = None then [] else [SinkDisconnect])\<rparr>"
    by (rule stop_eq)
  show "songs (stop s') = []" by (simp add: stop_eq)
  show "voice (stop s') = None" by (simp add: stop_eq)
  show "effects (stop s') = effects s' @ (if voice s' = None then [] else [SinkDisconnect])"
    by (simp add: stop_eq)
next
  assume h: "m g = Some s \<and> audio_player s = AtGet \<and> songs s = [] \<and> \<not> loop s \<and> waited s = 0"
  then have a: "m g = Some s" and i: "audio_player s = AtGet" "songs s = []" "\<not> loop s" "waited s = 0"
    by simp_all
  show "\<forall>n < idle_timeout. elapse_in g x n m g = Some (s\<lparr>waited := n\<rparr>)"
    using a i elapse_waiting [of s _ x] by (simp add: elapse_in_def)
  show t: "elapse_in g x idle_timeout m g =
       Some (s\<lparr>next_event := False, pending_stops := Suc (pending_stops s),
               effects := effects s @ [CreateTaskStop, Print PlayerTimedOut]\<rparr>)"
    using a timeout_fires [OF i, of x] by (simp add: elapse_in_def)
  show "map_option audio_player (elapse_in g x (k * idle_timeout) m g) = Some AtGet"
    using a i timeout_rounds [OF i, of x k] by (simp add: elapse_in_def)
  show "map_option pending_stops (elapse_in g x (k * idle_timeout) m g) = Some (pending_stops s + k)"
    using a i timeout_rounds [OF i, of x k] by (simp add: elapse_in_def)
  have "system_step g RunStop (elapse_in g x idle_timeout m) g =
          Some (run_stop (elapse x idle_timeout s))"
    using a by (simp add: system_step_def elapse_in_def)
  then show "system_step g RunStop (elapse_in g x idle_timeout m) g =
       Some (stop (s\<lparr>next_event := False,
                     effects := effects s @ [CreateTaskStop, Print PlayerTimedOut]\<rparr>))"
    using idle_period_eq [OF i, of x] by (simp add: idle_period_def)
  note p = idle_periods [OF i, of k x]
  from p show "audio_player ((idle_period x ^^ k) s) = AtGet" by simp
  from p show "songs ((idle_period x ^^ k) s) = []" by simp
  from p show "\<not> loop ((idle_period x ^^ k) s)" by simp
  from p show "waited ((idle_period x ^^ k) s) = 0" by simp
  from p show "pending_stops ((idle_period x ^^ k) s) = pending_stops s" by simp
  from p show "voice ((idle_period x ^^ k) s) = None" if "0 < k" using that by simp
  from p show "count_list (effects ((idle_period x ^^ k) s)) CreateTaskStop =
       count_list (effects s) CreateTaskStop + k" by simp
qed

theorem idle_timeout_keeps_session_witness:
  "[7 \<mapsto> idle0] 7 = Some idle0 \<and> audio_player idle0 = AtGet \<and> songs idle0 = [] \<and> \<not> loop idle0 \<and>
   waited idle0 = 0 \<and>
   elapse_in 7 all_fine idle_timeout [7 \<mapsto> idle0] 7 =
       Some (idle0\<lparr>next_event := False, pending_stops := Suc (pending_stops idle0),
               effects := effects idle0 @ [CreateTaskStop, Print PlayerTimedOut]\<rparr>) \<and>
   map_option pending_stops (elapse_in 7 all_fine (2 * idle_timeout) [7 \<mapsto> idle0] 7) = Some 2 \<and>
   audio_player ((idle_period all_fine ^^ 2) idle0) = AtGet \<and>
   voice ((idle_period all_fine ^^ 2) idle0) = None \<and>
   count_list (effects ((idle_period all_fine ^^ 2) idle0)) CreateTaskStop = 2 \<and>
   songs (stop (playing0\<lparr>songs := [track_b]\<rparr>)) = [] \<and>
   voice (stop (playing0\<lparr>songs := [track_b]\<rparr>)) = None \<and>
   effects (stop (playing0\<lparr>songs := [track_b]\<rparr>)) = effects playing0 @ [SinkDisconnect]"
proof -
  have h: "[7 \<mapsto> idle0] 7 = Some idle0 \<and> audio_player idle0 = AtGet \<and> songs idle0 = [] \<and>
    \<not> loop idle0 \<and> waited idle0 = 0"
    by (simp add: idle0_waits)
  have c: "count_list (effects idle0) CreateTaskStop = 0" "pending_stops idle0 = 0"
    "voice (playing0\<lparr>songs := [track_b]\<rparr>) \<noteq> None"
    "effects (playing0\<lparr>songs := [track_b]\<rparr>) = effects playing0"
    by (simp_all add: idle0_eq playing0_eq)
  note t = idle_timeout_keeps_session
    [of "[7 \<mapsto> idle0]" 7 idle0 all_fine 2 "playing0\<lparr>songs := [track_b]\<rparr>"]
  from t h have 1: "elapse_in 7 all_fine idle_timeout [7 \<mapsto> idle0] 7 =
       Some (idle0\<lparr>next_event := False, pending_stops := Suc (pending_stops idle0),
               effects := effects idle0 @ [CreateTaskStop, Print PlayerTimedOut]\<rparr>)"
    by blast
  from t h have 2:
    "map_option pending_stops (elapse_in 7 all_fine (2 * idle_timeout) [7 \<mapsto> idle0] 7) =
       Some (pending_stops idle0 + 2)"
    "audio_player ((idle_period all_fine ^^ 2) idle0) = AtGet"
    "count_list (effects ((idle_period all_fine ^^ 2) idle0)) CreateTaskStop =
       count_list (effects idle0) CreateTaskStop + 2"
    by blast+
  from t h have 3: "voice ((idle_period all_fine ^^ 2) idle0) = None"
    by simp
  from t have 4: "songs (stop (playing0\<lparr>songs := [track_b]\<rparr>)) = []"
    "voice (stop (playing0\<lparr>songs := [track_b]\<rparr>)) = None"
    "effects (stop (playing0\<lparr>songs := [track_b]\<rparr>)) =
       effects (playing0\<lparr>songs := [track_b]\<rparr>) @
       (if voice (playing0\<lparr>songs := [track_b]\<rparr>) = None then [] else [SinkDisconnect])"
    by blast+
  from h 1 2 3 4 c show ?thesis by auto
qed

text \<open>
  The claim C1 as stated (the loop terminates, and the registry no longer returns the
  session) fails on the session \<open>idle0\<close> stored for guild 7: after 180 seconds the registry
  still returns it, its task waits in \<open>songs.get()\<close>, and after 360 seconds \<open>stop\<close> has been
  initiated twice.
\<close>

theorem idle_timeout_counterexample:
  "[7 \<mapsto> idle0] 7 = Some idle0 \<and> audio_player idle0 = AtGet \<and> songs idle0 = [] \<and> \<not> loop idle0 \<and>
   waited idle0 = 0 \<and>
   elapse_in 7 all_fine 180 [7 \<mapsto> idle0] 7 \<noteq> None \<and>
   map_option audio_player (elapse_in 7 all_fine 180 [7 \<mapsto> idle0] 7) = Some AtGet \<and>
   map_option pending_stops (elapse_in 7 all_fine 360 [7 \<mapsto> idle0] 7) = Some 2"
  using timeout_rounds [of idle0 all_fine 1] timeout_rounds [of idle0 all_fine 2] idle0_waits
  by (simp add: elapse_in_def idle_timeout_def)

section \<open>Faults in the playback loop\<close>

lemma play_current_fields:
  "audio_player (snd (play_current x s)) = audio_player s"
  "next_event (snd (play_current x s)) = next_event s"
  "songs (snd (play_current x s)) = songs s"
  "loop (snd (play_current x s)) = loop s"
  "current (snd (play_current x s)) = map_option (\<lambda>c. c\<lparr>source_volume := volume s\<rparr>) (current s)"
  by (simp_all add: play_current_def emit_def set_status_def Let_def split: option.splits)

lemma play_and_wait_fields:
  "next_event (play_and_wait x s) = next_event s"
  "songs (play_and_wait x s) = songs s"
  "loop (play_and_wait x s) = loop s"
  "current (play_and_wait x s) = map_option (\<lambda>c. c\<lparr>source_volume := volume s\<rparr>) (current s)"
  by (simp_all add: play_and_wait_def play_current_def report_fault_def emit_def set_status_def Let_def
      split: option.splits)



lemma sink_finished_error: "sink_finished (Some e) s = set_status SinkIdle s"
  by (simp add: sink_finished_def play_next_song_def)

lemma sink_finished_ok: "sink_finished None s = (set_status SinkIdle s)\<lparr>next_event := True\<rparr>"
  by (simp add: sink_finished_def play_next_song_def)













section \<open>The loop flag\<close>

lemma play_and_wait_set_loop:
  "play_and_wait x (s\<lparr>loop := b\<rparr>) = (play_and_wait x s)\<lparr>loop := b\<rparr>"
  by (simp add: play_and_wait_def play_current_def report_fault_def emit_def set_status_def Let_def
      split: option.splits)

lemma play_and_wait_effects:
  "current s = Some c \<Longrightarrow> voice s \<noteq> None \<Longrightarrow> \<not> play_fails x \<Longrightarrow> \<not> embed_fails x \<Longrightarrow>
     effects (play_and_wait x s) =
       effects s @ [SinkPlay (c\<lparr>source_volume := volume s\<rparr>),
                    Send (NowPlaying (c\<lparr>source_volume := volume s\<rparr>))]"
  by (auto simp: play_and_wait_def play_current_def emit_def set_status_def Let_def)

lemma iteration_looping:
  "loop s \<Longrightarrow> iteration x s = play_and_wait x (s\<lparr>next_event := False\<rparr>)"
  by (simp add: iteration_def)

lemma iteration_dequeue:
  "\<not> loop s \<Longrightarrow> songs s = t # q \<Longrightarrow>
     iteration x s = play_and_wait x (s\<lparr>next_event := False, current := Some t, songs := q\<rparr>)"
  by (simp add: iteration_def)

lemma iteration_wait:
  "\<not> loop s \<Longrightarrow> songs s = [] \<Longrightarrow>
     iteration x s = s\<lparr>next_event := False, audio_player := AtGet, waited := 0\<rparr>"
  by (simp add: iteration_def)

text \<open>
  C6. An iteration reads the loop flag once, at its start. When the flag is set, the
  queue is left alone and the current track is played again. When it is clear and the
  queue is not empty, the first track is dequeued and played; when the queue is empty the
  task waits in \<open>songs.get()\<close>, undisturbed for less than 180 seconds, and at 180 seconds
  the timeout handler runs. The setter of \<open>loop\<close> stores the value it is given and changes
  nothing else. A resumption of the task that does not start a new iteration (the dequeue
  returning, or the wait for the completion event going on) does the same whatever the
  flag is: a track that arrives during the wait is dequeued and played even when the flag
  has been set meanwhile. A resumption at the head of the loop is an iteration under the
  new flag: after the setter has stored true it replays the current track and leaves the
  queue alone, after it has stored false it dequeues.
\<close>

theorem loop_flag_read_once_per_iteration:
  "(loop s \<longrightarrow>
      songs (iteration x s) = songs s \<and>
      current (iteration x s) = map_option (\<lambda>c. c\<lparr>source_volume := volume s\<rparr>) (current s) \<and>
      (current s = Some c \<and> voice s \<noteq> None \<and> \<not> play_fails x \<and> \<not> embed_fails x \<longrightarrow>
         effects (iteration x s) =
           effects s @ [SinkPlay (c\<lparr>source_volume := volume s\<rparr>),
                        Send (NowPlaying (c\<lparr>source_volume := volume s\<rparr>))])) \<and>
   (\<not> loop s \<and> songs s = t # q \<longrightarrow>
      songs (iteration x s) = q \<and>
      current (iteration x s) = Some (t\<lparr>source_volume := volume s\<rparr>) \<and>
      (voice s \<noteq> None \<and> \<not> play_fails x \<and> \<not> embed_fails x \<longrightarrow>
         effects (iteration x s) =
           effects s @ [SinkPlay (t\<lparr>source_volume := volume s\<rparr>),
                        Send (NowPlaying (t\<lparr>source_volume := volume s\<rparr>))])) \<and>
   (\<not> loop s \<and> songs s = [] \<longrightarrow>
      iteration x s = s\<lparr>next_event := False, audio_player := AtGet, waited := 0\<rparr> \<and>
      (\<forall>n < idle_timeout. elapse x n (iteration x s) = (iteration x s)\<lparr>waited := n\<rparr>) \<and>
      elapse x idle_timeout (iteration x s) =
        (iteration x s)\<lparr>pending_stops := Suc (pending_stops s),
           effects := effects s @ [CreateTaskStop, Print PlayerTimedOut]\<rparr>) \<and>
   (audio_player s = AtGet \<or> audio_player s = Exited \<or> (audio_player s = AtNext \<and> \<not> next_event s) \<longrightarrow>
      audio_player_task x (set_loop b s) = set_loop b (audio_player_task x s)) \<and>
   (audio_player s = AtTop \<or> (audio_player s = AtNext \<and> next_event s) \<longrightarrow>
      audio_player_task x (set_loop b s) = iteration x (set_loop b s)) \<and>
   set_loop b s = s\<lparr>loop := b\<rparr> \<and>
   loop (set_loop b s) = b \<and>
   songs (iteration x (set_loop True s)) = songs s \<and>
   current (iteration x (set_loop True s)) =
     map_option (\<lambda>c. c\<lparr>source_volume := volume s\<rparr>) (current s) \<and>
   (songs s = t # q \<longrightarrow>
      songs (iteration x (set_loop False s)) = q \<and>
      current (iteration x (set_loop False s)) = Some (t\<lparr>source_volume := volume s\<rparr>)) \<and>
   (audio_player s = AtGet \<and> songs s = t # q \<longrightarrow>
      songs (audio_player_task x (set_loop b s)) = q \<and>
      current (audio_player_task x (set_loop b s)) = Some (t\<lparr>source_volume := volume s\<rparr>) \<and>
      loop (audio_player_task x (set_loop b s)) = b)"
proof (intro conjI impI)
  show "set_loop b s = s\<lparr>loop := b\<rparr>" by (simp add: set_loop_def)
  show "loop (set_loop b s) = b" by (simp add: set_loop_def)
  show "songs (iteration x (set_loop True s)) = songs s"
    by (simp add: iteration_looping play_and_wait_fields set_loop_def)
  show "current (iteration x (set_loop True s)) =
     map_option (\<lambda>c. c\<lparr>source_volume := volume s\<rparr>) (current s)"
    by (simp add: iteration_looping play_and_wait_fields set_loop_def)
next
  assume "songs s = t # q"
  then have e: "iteration x (set_loop False s) =
      play_and_wait x (s\<lparr>loop := False, next_event := False, current := Some t, songs := q\<rparr>)"
    by (simp add: iteration_def set_loop_def)
  show "songs (iteration x (set_loop False s)) = q"
    by (simp add: e play_and_wait_fields)
  show "current (iteration x (set_loop False s)) = Some (t\<lparr>source_volume := volume s\<rparr>)"
    by (simp add: e play_and_wait_fields)
next
  assume "audio_player s = AtGet \<and> songs s = t # q"
  then have e: "audio_player_task x (set_loop b s) =
      play_and_wait x (s\<lparr>loop := b, current := Some t, songs := q\<rparr>)"
    by (simp add: audio_player_task_def set_loop_def)
  show "songs (audio_player_task x (set_loop b s)) = q"
    by (simp add: e play_and_wait_fields)
  show "current (audio_player_task x (set_loop b s)) = Some (t\<lparr>source_volume := volume s\<rparr>)"
    by (simp add: e play_and_wait_fields)
  show "loop (audio_player_task x (set_loop b s)) = b"
    by (simp add: e play_and_wait_fields)
next
  assume l: "loop s"
  show "songs (iteration x s) = songs s"
    using l by (simp add: iteration_looping play_and_wait_fields)
  show "current (iteration x s) = map_option (\<lambda>c. c\<lparr>source_volume := volume s\<rparr>) (current s)"
    using l by (simp add: iteration_looping play_and_wait_fields)
  assume "current s = Some c \<and> voice s \<noteq> None \<and> \<not> play_fails x \<and> \<not> embed_fails x"
  then show "effects (iteration x s) =
           effects s @ [SinkPlay (c\<lparr>source_volume := volume s\<rparr>),
                        Send (NowPlaying (c\<lparr>source_volume := volume s\<rparr>))]"
    using l play_and_wait_effects [of "s\<lparr>next_event := False\<rparr>" c x]
    by (simp add: iteration_looping)
next
  assume d: "\<not> loop s \<and> songs s = t # q"
  show "songs (iteration x s) = q"
    using d by (simp add: iteration_dequeue play_and_wait_fields)
  show "current (iteration x s) = Some (t\<lparr>source_volume := volume s\<rparr>)"
    using d by (simp add: iteration_dequeue play_and_wait_fields)
  assume "voice s \<noteq> None \<and> \<not> play_fails x \<and> \<not> embed_fails x"
  then show "effects (iteration x s) =
           effects s @ [SinkPlay (t\<lparr>source_volume := volume s\<rparr>),
                        Send (NowPlaying (t\<lparr>source_volume := volume s\<rparr>))]"
    using d play_and_wait_effects [of "s\<lparr>next_event := False, current := Some t, songs := q\<rparr>" t x]
    by (simp add: iteration_dequeue)
next
  assume w: "\<not> loop s \<and> songs s = []"
  then show i: "iteration x s = s\<lparr>next_event := False, audio_player := AtGet, waited := 0\<rparr>"
    by (simp add: iteration_wait)
  show "\<forall>n < idle_timeout. elapse x n (iteration x s) = (iteration x s)\<lparr>waited := n\<rparr>"
    using w elapse_waiting [of "iteration x s" _ x] by (simp add: i)
  show "elapse x idle_timeout (iteration x s) =
        (iteration x s)\<lparr>pending_stops := Suc (pending_stops s),
           effects := effects s @ [CreateTaskStop, Print PlayerTimedOut]\<rparr>"
    using w timeout_fires [of "iteration x s" x] by (simp add: i)
next
  assume "audio_player s = AtGet \<or> audio_player s = Exited \<or> (audio_player s = AtNext \<and> \<not> next_event s)"
  then show "audio_player_task x (set_loop b s) = set_loop b (audio_player_task x s)"
    by (cases s)
      (auto simp: audio_player_task_def set_loop_def play_and_wait_set_loop [symmetric]
        split: list.splits)
next
  assume "audio_player s = AtTop \<or> (audio_player s = AtNext \<and> next_event s)"
  then show "audio_player_task x (set_loop b s) = iteration x (set_loop b s)"
    by (auto simp: audio_player_task_def set_loop_def)
qed

theorem loop_flag_read_once_per_iteration_witness:
  "loop (set_loop True (playing0\<lparr>songs := [track_b]\<rparr>)) \<and>
   songs (iteration all_fine (set_loop True (playing0\<lparr>songs := [track_b]\<rparr>))) = [track_b] \<and>
   current (iteration all_fine (set_loop True (playing0\<lparr>songs := [track_b]\<rparr>))) =
     Some (track_a\<lparr>source_volume := 1 / 2\<rparr>) \<and>
   effects (iteration all_fine (set_loop True (playing0\<lparr>songs := [track_b]\<rparr>))) =
     effects playing0 @
       [SinkPlay (track_a\<lparr>source_volume := 1 / 2\<rparr>),
        Send (NowPlaying (track_a\<lparr>source_volume := 1 / 2\<rparr>))] \<and>
   \<not> loop (playing0\<lparr>songs := [track_b]\<rparr>) \<and>
   songs (iteration all_fine (playing0\<lparr>songs := [track_b]\<rparr>)) = [] \<and>
   current (iteration all_fine (playing0\<lparr>songs := [track_b]\<rparr>)) =
     Some (track_b\<lparr>source_volume := 1 / 2\<rparr>) \<and>
   audio_player idle0 = AtGet \<and>
   audio_player_task all_fine (set_loop True idle0) =
     set_loop True (audio_player_task all_fine idle0) \<and>
   audio_player (idle0\<lparr>songs := [track_b]\<rparr>) = AtGet \<and>
   songs (audio_player_task all_fine (set_loop True (idle0\<lparr>songs := [track_b]\<rparr>))) = [] \<and>
   current (audio_player_task all_fine (set_loop True (idle0\<lparr>songs := [track_b]\<rparr>))) =
     Some (track_b\<lparr>source_volume := 1 / 2\<rparr>) \<and>
   loop (set_loop True idle0) \<and> \<not> loop (set_loop False (set_loop True idle0))"
proof -
  let ?p = "playing0\<lparr>songs := [track_b]\<rparr>"
  let ?i = "idle0\<lparr>songs := [track_b]\<rparr>"
  let ?a = "track_a\<lparr>source_volume := 1 / 2\<rparr>"
  have a1: "loop (set_loop True ?p)"
    "current (set_loop True ?p) = Some ?a \<and> voice (set_loop True ?p) \<noteq> None \<and>
       \<not> play_fails all_fine \<and> \<not> embed_fails all_fine"
    "songs (set_loop True ?p) = [track_b]" "volume (set_loop True ?p) = 1 / 2"
    "effects (set_loop True ?p) = effects playing0"
    by (simp_all add: set_loop_def playing0_eq all_fine_def)
  have a2: "\<not> loop ?p \<and> songs ?p = [track_b]" "volume ?p = 1 / 2"
    by (simp_all add: playing0_eq)
  have a3: "audio_player idle0 = AtGet"
    "audio_player ?i = AtGet \<and> songs ?i = [track_b]" "volume ?i = 1 / 2"
    by (simp_all add: idle0_eq)
  note t1 = loop_flag_read_once_per_iteration [of "set_loop True ?p" all_fine ?a track_b "[]" True]
  from a1(1) t1 have r1:
    "songs (iteration all_fine (set_loop True ?p)) = songs (set_loop True ?p)"
    "current (iteration all_fine (set_loop True ?p)) =
       map_option (\<lambda>c. c\<lparr>source_volume := volume (set_loop True ?p)\<rparr>) (current (set_loop True ?p))"
    by blast+
  from a1(1,2) t1 have r1e:
    "effects (iteration all_fine (set_loop True ?p)) =
       effects (set_loop True ?p) @
         [SinkPlay (?a\<lparr>source_volume := volume (set_loop True ?p)\<rparr>),
          Send (NowPlaying (?a\<lparr>source_volume := volume (set_loop True ?p)\<rparr>))]"
    by blast
  note t2 = loop_flag_read_once_per_iteration [of ?p all_fine ?a track_b "[]" True]
  from a2(1) t2 have r2: "songs (iteration all_fine ?p) = []"
    "current (iteration all_fine ?p) = Some (track_b\<lparr>source_volume := volume ?p\<rparr>)"
    by blast+
  note t3 = loop_flag_read_once_per_iteration [of idle0 all_fine ?a track_b "[]" True]
  from a3(1) t3 have r3: "audio_player_task all_fine (set_loop True idle0) =
     set_loop True (audio_player_task all_fine idle0)"
    by blast
  from t3 have r3b: "loop (set_loop True idle0)" by blast
  note t4 = loop_flag_read_once_per_iteration [of ?i all_fine ?a track_b "[]" True]
  from a3(2) t4 have r4: "songs (audio_player_task all_fine (set_loop True ?i)) = []"
    "current (audio_player_task all_fine (set_loop True ?i)) =
       Some (track_b\<lparr>source_volume := volume ?i\<rparr>)"
    by blast+
  note t5 = loop_flag_read_once_per_iteration
    [of "set_loop True idle0" all_fine ?a track_b "[]" False]
  from t5 have r5: "loop (set_loop False (set_loop True idle0)) = False" by blast
  from a1 a2 a3 r1 r1e r2 r3 r3b r4 r5 show ?thesis by simp
qed

section \<open>The current-track slot\<close>

lemma play_and_wait_current: "current s \<noteq> None \<Longrightarrow> current (play_and_wait x s) \<noteq> None"
  by (simp add: play_and_wait_fields)

lemma iteration_current: "current s \<noteq> None \<Longrightarrow> current (iteration x s) \<noteq> None"
  by (simp add: iteration_def play_and_wait_fields Let_def del: not_None_eq split: list.splits)

lemma audio_player_task_current:
  "current s \<noteq> None \<Longrightarrow> current (audio_player_task x s) \<noteq> None"
  by (simp add: audio_player_task_def iteration_current play_and_wait_fields
      del: not_None_eq split: task_point.splits list.splits)

lemma tick_current: "current s \<noteq> None \<Longrightarrow> current (tick x s) \<noteq> None"
  by (simp add: tick_def on_timeout_def iteration_current emit_def del: not_None_eq)

lemma stop_current: "current (stop s) = current s"
  by (simp add: stop_def emit_def Let_def split: option.splits)

lemma run_stop_current: "current (run_stop s) = current s"
  by (simp add: run_stop_def stop_current)

lemma sink_finished_current: "current (sink_finished err s) = current s"
  by (cases err) (simp_all add: sink_finished_error sink_finished_ok set_status_def)

lemma Music_current:
  "Music_join d s = Inr s1 \<Longrightarrow> current s1 = current s"
  "current (Music_volume v s) = current s"
  "Music_pause s = Inr s1 \<Longrightarrow> current s1 = current s"
  "Music_resume s = Inr s1 \<Longrightarrow> current s1 = current s"
  "current (Music_stop s) = current s"
  "current (Music_skip s) = current s"
  "current (Music_loop s) = current s"
  "Music_remove i s = Inr s1 \<Longrightarrow> current s1 = current s"
  "Music_play d t s = Inr s1 \<Longrightarrow> current s1 = current s"
proof -
  show "Music_join d s = Inr s1 \<Longrightarrow> current s1 = current s"
    by (auto simp: Music_join_def join_channel_def emit_def split: sum.splits option.splits)
  show "current (Music_volume v s) = current s"
    by (simp add: Music_volume_def emit_def set_volume_def)
  show "Music_pause s = Inr s1 \<Longrightarrow> current s1 = current s"
    by (auto simp: Music_pause_def emit_def set_status_def split: option.splits if_splits)
  show "Music_resume s = Inr s1 \<Longrightarrow> current s1 = current s"
    by (auto simp: Music_resume_def emit_def set_status_def split: option.splits if_splits)
  show "current (Music_stop s) = current s"
    by (simp add: Music_stop_def emit_def set_status_def Let_def)
  show "current (Music_skip s) = current s"
    by (simp add: Music_skip_def skip_def emit_def set_status_def Let_def)
  show "current (Music_loop s) = current s"
    by (simp add: Music_loop_def emit_def set_loop_def)
  show "Music_remove i s = Inr s1 \<Longrightarrow> current s1 = current s"
    by (auto simp: Music_remove_def emit_def split: sum.splits if_splits)
  show "Music_play d t s = Inr s1 \<Longrightarrow> current s1 = current s"
    by (auto simp: Music_play_def join_channel_def emit_def Let_def split: sum.splits option.splits)
qed

lemma command_body_current: "command_body c s = Inr s1 \<Longrightarrow> current s1 = current s"
  by (cases c) (auto dest: Music_current(1,3,4,8,9) simp: Music_current(2,5,6,7))

lemma run_command_current: "current (run_command c s) = current s"
proof (cases "command_body c s")
  case (Inl e)
  then show ?thesis by (simp add: run_command_def emit_def)
next
  case (Inr s1)
  then show ?thesis using command_body_current [of c s s1] by (simp add: run_command_def)
qed

lemma session_step_current: "current s \<noteq> None \<Longrightarrow> current (session_step ev s) \<noteq> None"
  by (cases ev)
    (simp_all add: audio_player_task_current tick_current run_stop_current sink_finished_current
      run_command_current del: not_None_eq)

lemma run_events_current: "current s \<noteq> None \<Longrightarrow> current (run_events evs s) \<noteq> None"
  unfolding run_events_def
proof (induction evs arbitrary: s)
  case Nil
  then show ?case by simp
next
  case (Cons ev evs)
  from Cons.prems have "current (session_step ev s) \<noteq> None" by (rule session_step_current)
  then have "current (fold session_step evs (session_step ev s)) \<noteq> None" by (rule Cons.IH)
  then show ?case by simp
qed

lemma back_to_waiting:
  assumes "audio_player s = AtNext" "\<not> loop s" "songs s = []"
  shows "run_events [Finished None, Run x] s =
           (set_status SinkIdle s)\<lparr>next_event := False, audio_player := AtGet, waited := 0\<rparr>"
  using assms
  by (simp add: run_events_def sink_finished_ok audio_player_task_def iteration_def set_status_def)

text \<open>
  C10. No event of a session clears \<open>current\<close>: once set it stays set. So when the last
  track of a session with a voice client has finished and the task is back in
  \<open>songs.get()\<close>, the sink is idle and \<open>is_playing\<close> is still true, for all of the wait; and
  the commands that test \<open>is_playing\<close> are accepted there: \<open>_volume\<close> stores the value,
  \<open>_loop\<close> turns the flag on, \<open>_skip\<close> calls \<open>stop\<close> on the sink.
\<close>

theorem current_slot_never_cleared:
  "(current s \<noteq> None \<longrightarrow> current (run_events evs s) \<noteq> None) \<and>
   (current s \<noteq> None \<and> voice s \<noteq> None \<and> audio_player s = AtNext \<and> \<not> loop s \<and> songs s = [] \<longrightarrow>
      audio_player (run_events [Finished None, Run x] s) = AtGet \<and>
      map_option status (voice (run_events [Finished None, Run x] s)) = Some SinkIdle \<and>
      (\<forall>n < idle_timeout. is_playing (elapse x n (run_events [Finished None, Run x] s))) \<and>
      volume (Music_volume v (run_events [Finished None, Run x] s)) = of_int v / 100 \<and>
      loop (Music_loop (run_events [Finished None, Run x] s)) \<and>
      effects (Music_skip (run_events [Finished None, Run x] s)) =
        effects (run_events [Finished None, Run x] s) @ [React NextMark, SinkStop])"
proof (intro conjI impI)
  assume "current s \<noteq> None"
  then show "current (run_events evs s) \<noteq> None" by (rule run_events_current)
next
  assume a: "current s \<noteq> None \<and> voice s \<noteq> None \<and> audio_player s = AtNext \<and> \<not> loop s \<and> songs s = []"
  let ?s = "run_events [Finished None, Run x] s"
  have e: "?s = (set_status SinkIdle s)\<lparr>next_event := False, audio_player := AtGet, waited := 0\<rparr>"
    using a by (simp add: back_to_waiting)
  have p: "is_playing ?s"
    using a by (auto simp: e is_playing_def set_status_def)
  show "audio_player ?s = AtGet" by (simp add: e)
  show "map_option status (voice ?s) = Some SinkIdle"
    using a by (auto simp: e set_status_def)
  show "\<forall>n < idle_timeout. is_playing (elapse x n ?s)"
  proof (intro allI impI)
    fix n assume "n < idle_timeout"
    then have "elapse x n ?s = ?s\<lparr>waited := waited ?s + n\<rparr>"
      using a by (intro elapse_waiting) (simp_all add: e set_status_def)
    then show "is_playing (elapse x n ?s)"
      using p by (simp add: is_playing_def)
  qed
  show "volume (Music_volume v ?s) = of_int v / 100"
    using p by (simp add: Music_volume_never_rejects emit_def set_volume_def)
  show "loop (Music_loop ?s)"
    using p a by (simp add: Music_loop_def emit_def set_loop_def e set_status_def)
  show "effects (Music_skip ?s) = effects ?s @ [React NextMark, SinkStop]"
    using p by (simp add: Music_skip_def skip_def emit_def set_status_def is_playing_def)
qed

theorem current_slot_never_cleared_witness:
  "current playing0 \<noteq> None \<and> voice playing0 \<noteq> None \<and> audio_player playing0 = AtNext \<and>
   \<not> loop playing0 \<and> songs playing0 = [] \<and>
   current (run_events [Finished None, Run all_fine, Tick all_fine, Cmd Stop, RunStop] playing0) \<noteq> None \<and>
   audio_player idle0 = AtGet \<and>
   map_option status (voice idle0) = Some SinkIdle \<and>
   volume (Music_volume 30 idle0) = 3 / 10 \<and>
   loop (Music_loop idle0) \<and>
   effects (Music_skip idle0) = effects idle0 @ [React NextMark, SinkStop]"
proof -
  have a: "current playing0 \<noteq> None \<and> voice playing0 \<noteq> None \<and> audio_player playing0 = AtNext \<and>
    \<not> loop playing0 \<and> songs playing0 = []"
    by (simp add: playing0_eq)
  note t = current_slot_never_cleared
      [of playing0 "[Finished None, Run all_fine, Tick all_fine, Cmd Stop, RunStop]" all_fine 30]
  from t a have 1:
    "current (run_events [Finished None, Run all_fine, Tick all_fine, Cmd Stop, RunStop] playing0) \<noteq> None"
    by blast
  from t a have 2: "audio_player idle0 = AtGet"
    "map_option status (voice idle0) = Some SinkIdle"
    "volume (Music_volume 30 idle0) = of_int 30 / 100"
    "loop (Music_loop idle0)"
    "effects (Music_skip idle0) = effects idle0 @ [React NextMark, SinkStop]"
    unfolding idle0_def by blast+
  from 2(3) have 3: "volume (Music_volume 30 idle0) = 3 / 10" by simp
  from a 1 2(1,2,4,5) 3 show ?thesis by blast
qed

end
